theory Spec2Isabelle
  imports Main
begin

section \<open>The Specification pattern of \<open>specification/main.go\<close>\<close>

text \<open>
  The program composes boolean predicates (``specifications'') over a \<open>User\<close> and uses
  them to gate a handler. Every method receives the user as a pointer \<open>*User\<close>, so the
  model keeps the users in a store and passes the store through every call: what a
  method does to the user it is given is visible in the store it returns.
\<close>

subsection \<open>Data model\<close>

text \<open>\<open>type UserType int\<close> with the three constants numbered by \<open>iota\<close>. Only equality is
  ever used on it, so the machine width plays no role.\<close>

type_synonym UserType = int

definition Personal :: UserType where
  "Personal = 0"

definition Admin :: UserType where
  "Admin = 1"

definition SuperAdmin :: UserType where
  "SuperAdmin = 2"

text \<open>\<open>type User struct\<close>. A Go string is a sequence of bytes, as a HOL \<open>string\<close> is.\<close>

record User =
  Type :: UserType
  Name :: string
  Locked :: bool

text \<open>A value of type \<open>*User\<close>: \<open>nil\<close>, or the address of a user in the store.\<close>

datatype User_ptr = nil | ptr nat

text \<open>The part of the machine the program can touch: the users behind the pointers and
  the console. A Go pointer that is not \<open>nil\<close> always refers to a live object, so the
  store gives a user for every address. Handlers may carry further state of their own in
  the extension of the record.\<close>

record world =
  heap :: "nat \<Rightarrow> User"
  stdout :: string

text \<open>The only run-time failure the methods can meet is reading a field through a
  \<open>nil\<close> pointer.\<close>

datatype panic = NilDereference

definition deref :: "'a world_scheme \<Rightarrow> User_ptr \<Rightarrow> panic + User" where
  "deref w u = (case u of nil \<Rightarrow> Inl NilDereference | ptr a \<Rightarrow> Inr (heap w a))"

text \<open>The implementations of the interface \<open>SpecificationUser\<close> in the program, each with
  the fields of its struct.\<close>

datatype SpecificationUser =
    AndSpecification "SpecificationUser list"
  | OrSpecification "SpecificationUser list"
  | NotSpecification SpecificationUser
  | TypeSpecification UserType
  | NameLengthSpecification int
  | NameSpecification string
  | LockedSpecification

subsection \<open>Library functions the program calls\<close>

text \<open>\<open>strings.ToLower\<close>. The standard library first scans the bytes: a string of ASCII
  bytes only is returned as it is when it has no upper-case letter, and otherwise with
  each byte in \<open>A..Z\<close> moved up by \<open>'a' - 'A'\<close>. A string with a byte from \<open>0x80\<close> on is
  handed to \<open>strings.Map(unicode.ToLower, s)\<close>, which reads the string rune by rune.\<close>

definition isUpperByte :: "char \<Rightarrow> bool" where
  "isUpperByte c = (65 \<le> (of_char c :: nat) \<and> (of_char c :: nat) \<le> 90)"

definition lowerByte :: "char \<Rightarrow> char" where
  "lowerByte c = (if isUpperByte c then char_of ((of_char c :: nat) + 32) else c)"

definition isASCII :: "string \<Rightarrow> bool" where
  "isASCII s = list_all (\<lambda>c. (of_char c :: nat) < 128) s"

definition hasUpper :: "string \<Rightarrow> bool" where
  "hasUpper s = list_ex isUpperByte s"

text \<open>Package \<open>unicode/utf8\<close>. A rune is an \<open>int32\<close>; the runes met here lie between 0 and
  \<open>0x10FFFF\<close>. The table \<open>first\<close> classifies the first byte of a sequence: ASCII, never
  valid, or the lead of a sequence of \<open>sz\<close> bytes whose second byte must lie between \<open>lo\<close>
  and \<open>hi\<close>.\<close>

definition RuneError :: int where
  "RuneError = 0xFFFD"

datatype first_info = as | xx | lead nat nat nat

definition first :: "nat \<Rightarrow> first_info" where
  "first s0 =
     (if s0 < 0x80 then as
      else if s0 < 0xC2 then xx
      else if s0 < 0xE0 then lead 2 0x80 0xBF
      else if s0 = 0xE0 then lead 3 0xA0 0xBF
      else if s0 < 0xED then lead 3 0x80 0xBF
      else if s0 = 0xED then lead 3 0x80 0x9F
      else if s0 < 0xF0 then lead 3 0x80 0xBF
      else if s0 = 0xF0 then lead 4 0x90 0xBF
      else if s0 < 0xF4 then lead 4 0x80 0xBF
      else if s0 = 0xF4 then lead 4 0x80 0x8F
      else xx)"

definition byteAt :: "string \<Rightarrow> nat \<Rightarrow> nat" where
  "byteAt s i = of_char (s ! i)"

text \<open>\<open>utf8.DecodeRuneInString\<close>: the first rune of \<open>s\<close> and its width in bytes; a byte that
  starts no valid sequence is read as \<open>RuneError\<close> of width 1. Every index below is
  guarded by the length checks before it. The masks \<open>& 0x1F\<close>, \<open>& 0x3F\<close> and the shifts
  are written as \<open>mod\<close> and multiplication.\<close>

definition DecodeRuneInString :: "string \<Rightarrow> int \<times> nat" where
  "DecodeRuneInString s =
     (if length s < 1 then (RuneError, 0)
      else case first (byteAt s 0) of
        as \<Rightarrow> (int (byteAt s 0), 1)
      | xx \<Rightarrow> (RuneError, 1)
      | lead sz lo hi \<Rightarrow>
          if length s < sz then (RuneError, 1)
          else if byteAt s 1 < lo \<or> hi < byteAt s 1 then (RuneError, 1)
          else if sz \<le> 2 then
            (int ((byteAt s 0 mod 0x20) * 0x40 + byteAt s 1 mod 0x40), 2)
          else if byteAt s 2 < 0x80 \<or> 0xBF < byteAt s 2 then (RuneError, 1)
          else if sz \<le> 3 then
            (int ((byteAt s 0 mod 0x10) * 0x1000 + (byteAt s 1 mod 0x40) * 0x40
                   + byteAt s 2 mod 0x40), 3)
          else if byteAt s 3 < 0x80 \<or> 0xBF < byteAt s 3 then (RuneError, 1)
          else
            (int ((byteAt s 0 mod 0x08) * 0x40000 + (byteAt s 1 mod 0x40) * 0x1000
                   + (byteAt s 2 mod 0x40) * 0x40 + byteAt s 3 mod 0x40), 4))"

text \<open>\<open>utf8.AppendRune\<close> on a rune that is not negative: its UTF-8 encoding, with
  \<open>RuneError\<close> encoded in place of a surrogate or of a rune above \<open>0x10FFFF\<close>.\<close>

definition byte :: "int \<Rightarrow> char" where
  "byte i = char_of (nat i)"

definition AppendRune :: "int \<Rightarrow> string" where
  "AppendRune r =
     (if r \<le> 0x7F then [byte r]
      else if r \<le> 0x7FF then [byte (0xC0 + r div 0x40), byte (0x80 + r mod 0x40)]
      else if 0x10FFFF < r \<or> (0xD800 \<le> r \<and> r \<le> 0xDFFF) then
        [byte (0xE0 + RuneError div 0x1000), byte (0x80 + RuneError div 0x40 mod 0x40),
         byte (0x80 + RuneError mod 0x40)]
      else if r \<le> 0xFFFF then
        [byte (0xE0 + r div 0x1000), byte (0x80 + r div 0x40 mod 0x40), byte (0x80 + r mod 0x40)]
      else
        [byte (0xF0 + r div 0x40000), byte (0x80 + r div 0x1000 mod 0x40),
         byte (0x80 + r div 0x40 mod 0x40), byte (0x80 + r mod 0x40)])"

text \<open>\<open>strings.Map\<close>, as the standard library has it today. Its second loop, \<open>Map_rest\<close>, writes the image of every rune, and
  drops a rune whose image is negative. Its first loop, \<open>Map_from\<close>, looks from byte \<open>i\<close>
  on for the first rune that the mapping changes or that is an invalid byte; it returns
  \<open>s\<close> itself when there is none, and otherwise the bytes before that rune, the image of
  the rune, and the second loop's output for the rest.\<close>

function Map_rest :: "(int \<Rightarrow> int) \<Rightarrow> string \<Rightarrow> string" where
  "Map_rest mapping s =
     (if s = [] then []
      else case DecodeRuneInString s of (c, width) \<Rightarrow>
        (if 0 \<le> mapping c then AppendRune (mapping c) else []) @ Map_rest mapping (drop width s))"
  by pat_completeness auto

text \<open>A rune read from a string that is not empty is at least one byte wide, so both
  loops advance.\<close>

termination
proof (relation "measure (\<lambda>(mapping, s). length s)", goal_cases)
  case 1
  show ?case by simp
next
  case (2 mapping s c width)
  from \<open>s \<noteq> []\<close> have "1 \<le> snd (DecodeRuneInString s)"
    by (simp add: DecodeRuneInString_def split: first_info.splits)
  with 2 have "1 \<le> width" by (metis snd_conv)
  with \<open>s \<noteq> []\<close> show ?case by (cases s) simp_all
qed

function Map_from :: "(int \<Rightarrow> int) \<Rightarrow> string \<Rightarrow> nat \<Rightarrow> string" where
  "Map_from mapping s i =
     (if length s \<le> i then s
      else case DecodeRuneInString (drop i s) of (c, width) \<Rightarrow>
        if mapping c = c \<and> (c \<noteq> RuneError \<or> width \<noteq> 1) then Map_from mapping s (i + width)
        else take i s @ (if 0 \<le> mapping c then AppendRune (mapping c) else [])
               @ Map_rest mapping (drop (i + width) s))"
  by pat_completeness auto

termination
proof (relation "measure (\<lambda>(mapping, s, i). length s - i)", goal_cases)
  case 1
  show ?case by simp
next
  case (2 mapping s i c width)
  from \<open>\<not> length s \<le> i\<close> have "drop i s \<noteq> []" by simp
  then have "1 \<le> snd (DecodeRuneInString (drop i s))"
    by (simp add: DecodeRuneInString_def split: first_info.splits)
  with 2 have "1 \<le> width" by (metis snd_conv)
  with \<open>\<not> length s \<le> i\<close> show ?case by simp
qed

definition Map :: "(int \<Rightarrow> int) \<Rightarrow> string \<Rightarrow> string" where
  "Map mapping s = Map_from mapping s 0"

text \<open>\<open>unicode.ToLower\<close>: ASCII is handled in place; any other rune is looked up in the
  table \<open>unicode.CaseRanges\<close>. That lookup, \<open>unicode.To(unicode.LowerCase, r)\<close>, is the
  parameter \<open>caseLower\<close> of the model.\<close>

definition unicode_ToLower :: "(int \<Rightarrow> int) \<Rightarrow> int \<Rightarrow> int" where
  "unicode_ToLower caseLower r =
     (if r \<le> 0x7F then (if 0x41 \<le> r \<and> r \<le> 0x5A then r + (0x61 - 0x41) else r)
      else caseLower r)"

definition ToLower :: "(int \<Rightarrow> int) \<Rightarrow> string \<Rightarrow> string" where
  "ToLower caseLower s =
     (if isASCII s then (if \<not> hasUpper s then s else map lowerByte s)
      else Map (unicode_ToLower caseLower) s)"

text \<open>\<open>fmt\<close> verbs as the program uses them: \<open>%t\<close> on a boolean, and \<open>fmt.Printf\<close> and
  \<open>fmt.Println\<close> writing to the console.\<close>

definition fmt_bool :: "bool \<Rightarrow> string" where
  "fmt_bool b = (if b then ''true'' else ''false'')"

definition newline :: string where
  "newline = [CHR 0x0A]"

definition Print :: "string \<Rightarrow> 'a world_scheme \<Rightarrow> 'a world_scheme" where
  "Print s w = w\<lparr>stdout := stdout w @ s\<rparr>"

definition Println :: "string \<Rightarrow> 'a world_scheme \<Rightarrow> 'a world_scheme" where
  "Println s w = Print (s @ newline) w"

subsection \<open>\<open>User.String\<close>\<close>

definition names :: "UserType \<rightharpoonup> string" where
  "names = [Personal \<mapsto> ''PERSONAL'', Admin \<mapsto> ''ADMIN'', SuperAdmin \<mapsto> ''SUPER ADMIN'']"

text \<open>Indexing a Go map with a missing key yields the zero value, here the empty string.\<close>

definition User_String :: "User \<Rightarrow> string" where
  "User_String u =
     Name u @ '' (Type:'' @ (case names (Type u) of None \<Rightarrow> [] | Some n \<Rightarrow> n)
       @ '' Locked:'' @ fmt_bool (Locked u) @ '')''"

text \<open>A \<open>*User\<close> operand of \<open>%v\<close> or \<open>%s\<close>: \<open>fmt\<close> calls \<open>String\<close> on the user pointed to,
  and prints \<open><nil>\<close> for a nil pointer.\<close>

definition fmt_user :: "'a world_scheme \<Rightarrow> User_ptr \<Rightarrow> string" where
  "fmt_user w u = (case u of nil \<Rightarrow> ''<nil>'' | ptr a \<Rightarrow> User_String (heap w a))"

subsection \<open>The specifications\<close>

text \<open>\<open>IsSatisfiedBy\<close>, one equation per implementing type; \<open>And_range\<close> and \<open>Or_range\<close>
  are the two \<open>for ... range s.specs\<close> loops, which return at the first child that
  decides the result. The first argument \<open>L\<close> is the lookup that \<open>ToLower\<close> takes.\<close>

function IsSatisfiedBy ::
    "(int \<Rightarrow> int) \<Rightarrow> SpecificationUser \<Rightarrow> User_ptr \<Rightarrow> 'a world_scheme
      \<Rightarrow> (panic + bool) \<times> 'a world_scheme"
  and And_range ::
    "(int \<Rightarrow> int) \<Rightarrow> SpecificationUser list \<Rightarrow> User_ptr \<Rightarrow> 'a world_scheme
      \<Rightarrow> (panic + bool) \<times> 'a world_scheme"
  and Or_range ::
    "(int \<Rightarrow> int) \<Rightarrow> SpecificationUser list \<Rightarrow> User_ptr \<Rightarrow> 'a world_scheme
      \<Rightarrow> (panic + bool) \<times> 'a world_scheme"
where
  "IsSatisfiedBy L (AndSpecification specs) u w = And_range L specs u w"
| "IsSatisfiedBy L (OrSpecification specs) u w = Or_range L specs u w"
| "IsSatisfiedBy L (NotSpecification spec) u w =
     (case IsSatisfiedBy L spec u w of
        (Inl e, w') \<Rightarrow> (Inl e, w')
      | (Inr b, w') \<Rightarrow> (Inr (\<not> b), w'))"
| "IsSatisfiedBy L (TypeSpecification typ) u w =
     (case deref w u of
        Inl e \<Rightarrow> (Inl e, w)
      | Inr usr \<Rightarrow> (Inr (typ = Type usr), w))"
| "IsSatisfiedBy L (NameLengthSpecification l) u w =
     (case deref w u of
        Inl e \<Rightarrow> (Inl e, w)
      | Inr usr \<Rightarrow> (Inr (int (length (Name usr)) \<le> l), w))"
| "IsSatisfiedBy L (NameSpecification name) u w =
     (case deref w u of
        Inl e \<Rightarrow> (Inl e, w)
      | Inr usr \<Rightarrow> (Inr (ToLower L (Name usr) = name), w))"
| "IsSatisfiedBy L LockedSpecification u w =
     (case deref w u of
        Inl e \<Rightarrow> (Inl e, w)
      | Inr usr \<Rightarrow> (Inr (Locked usr), w))"
| "And_range L [] u w = (Inr True, w)"
| "And_range L (s # ss) u w =
     (case IsSatisfiedBy L s u w of
        (Inl e, w') \<Rightarrow> (Inl e, w')
      | (Inr b, w') \<Rightarrow> if \<not> b then (Inr False, w') else And_range L ss u w')"
| "Or_range L [] u w = (Inr False, w)"
| "Or_range L (s # ss) u w =
     (case IsSatisfiedBy L s u w of
        (Inl e, w') \<Rightarrow> (Inl e, w')
      | (Inr b, w') \<Rightarrow> if b then (Inr True, w') else Or_range L ss u w')"
  by pat_completeness auto

text \<open>Every call goes to a part of the specification it comes from: the measure is the
  size of the specification, or of the list of children still to visit.\<close>

termination
  by (relation "measure (\<lambda>x. case x of
          Inl (L, s, u, w) \<Rightarrow> size s
        | Inr (Inl (L, ss, u, w)) \<Rightarrow> size_list size ss
        | Inr (Inr (L, ss, u, w)) \<Rightarrow> size_list size ss)") auto

text \<open>The constructors \<open>And\<close>, \<open>Or\<close>, \<open>Not\<close>, \<open>NameShort\<close> and \<open>Name\<close>. (\<open>Not\<close>, and \<open>Name\<close>
  and \<open>Locked\<close> below, carry a suffix: the plain names are taken by negation and by the
  fields of \<open>User\<close>.)\<close>

definition And :: "SpecificationUser list \<Rightarrow> SpecificationUser" where
  "And specs = AndSpecification specs"

definition Or :: "SpecificationUser list \<Rightarrow> SpecificationUser" where
  "Or specs = OrSpecification specs"

definition Not_spec :: "SpecificationUser \<Rightarrow> SpecificationUser" where
  "Not_spec spec = NotSpecification spec"

definition NameShort :: "int \<Rightarrow> SpecificationUser" where
  "NameShort l = NameLengthSpecification l"

definition Name_spec :: "(int \<Rightarrow> int) \<Rightarrow> string \<Rightarrow> SpecificationUser" where
  "Name_spec L name = NameSpecification (ToLower L name)"

text \<open>The predefined rules.\<close>

definition IsPersonal :: SpecificationUser where
  "IsPersonal = TypeSpecification Personal"

definition IsAdmin :: SpecificationUser where
  "IsAdmin = TypeSpecification Admin"

definition IsSuperAdmin :: SpecificationUser where
  "IsSuperAdmin = TypeSpecification SuperAdmin"

definition AnyAdmin :: SpecificationUser where
  "AnyAdmin = Or [IsAdmin, IsSuperAdmin]"

definition NotAdmin :: SpecificationUser where
  "NotAdmin = Not_spec AnyAdmin"

definition NotSuperAdmin :: SpecificationUser where
  "NotSuperAdmin = Not_spec IsSuperAdmin"

definition IsNameShort4 :: SpecificationUser where
  "IsNameShort4 = NameShort 4"

definition Locked_spec :: SpecificationUser where
  "Locked_spec = LockedSpecification"

definition NotLocked :: SpecificationUser where
  "NotLocked = Not_spec Locked_spec"

definition ValidNameNotAdmin :: SpecificationUser where
  "ValidNameNotAdmin = And [Not_spec AnyAdmin, NotLocked, Not_spec IsNameShort4]"

definition UserIsSatisfiedBy ::
    "(int \<Rightarrow> int) \<Rightarrow> User_ptr \<Rightarrow> SpecificationUser \<Rightarrow> 'a world_scheme
      \<Rightarrow> (panic + bool) \<times> 'a world_scheme" where
  "UserIsSatisfiedBy L u spec w = IsSatisfiedBy L spec u w"

subsection \<open>The access gate\<close>

text \<open>The value \<open>fmt.Errorf\<close> returns, with its message.\<close>

datatype error = Errorf string

text \<open>\<open>checkAccess\<close> returns a closure; applied to a user and the current state it yields
  the closure's return value (\<open>None\<close> is Go's \<open>nil\<close> error) and the state it leaves. A
  handler is a \<open>func()\<close> that returns, given by what it does to the state.\<close>

definition checkAccess ::
    "(int \<Rightarrow> int) \<Rightarrow> SpecificationUser \<Rightarrow> string \<Rightarrow> ('a world_scheme \<Rightarrow> 'a world_scheme)
      \<Rightarrow> User_ptr \<Rightarrow> 'a world_scheme \<Rightarrow> (panic + error option) \<times> 'a world_scheme" where
  "checkAccess L spec name handler user w =
     (case IsSatisfiedBy L spec user w of
        (Inl e, w') \<Rightarrow> (Inl e, w')
      | (Inr b, w') \<Rightarrow>
          if \<not> b then
            (Inr (Some (Errorf (name @ '': access denied, user: '' @ fmt_user w' user))), w')
          else
            (Inr None,
             handler (Print (name @ '': access granted, user: '' @ fmt_user w' user @ newline) w')))"

subsection \<open>The values \<open>main\<close> works with\<close>

definition user :: User where
  "user = \<lparr>Type = Admin, Name = ''Alex'', Locked = False\<rparr>"

definition supAdmin :: User where
  "supAdmin = \<lparr>Type = SuperAdmin, Name = ''SuperAlex'', Locked = False\<rparr>"

definition BooFooLocked :: User where
  "BooFooLocked = \<lparr>Type = Personal, Name = ''BooFooLocked'', Locked = True\<rparr>"

definition BooFoo :: User where
  "BooFoo = \<lparr>Type = Personal, Name = ''BooFoo'', Locked = False\<rparr>"

definition handlerSecret ::
    "(int \<Rightarrow> int) \<Rightarrow> User_ptr \<Rightarrow> 'a world_scheme
      \<Rightarrow> (panic + error option) \<times> 'a world_scheme" where
  "handlerSecret L = checkAccess L IsSuperAdmin ''high level'' (Println ''execute handlerSecret'')"

text \<open>A state as \<open>main\<close> has it once its four users are built: they sit at the addresses
  0 to 3, and nothing has been printed yet.\<close>

definition main_world :: world where
  "main_world =
     \<lparr>heap = (\<lambda>a. if a = 0 then user else if a = 1 then supAdmin
                  else if a = 2 then BooFooLocked else BooFoo),
      stdout = []\<rparr>"

subsection \<open>Notions used to state the properties\<close>

text \<open>Comparison of two byte strings that ignores the case of letters, stated on the
  alphabet itself: the strings have the same length and, position by position, the
  bytes are equal or are a capital letter and its small letter.\<close>

definition upperLetters :: string where
  "upperLetters = ''ABCDEFGHIJKLMNOPQRSTUVWXYZ''"

definition lowerLetters :: string where
  "lowerLetters = ''abcdefghijklmnopqrstuvwxyz''"

definition sameLetter :: "char \<Rightarrow> char \<Rightarrow> bool" where
  "sameLetter c d =
     (c = d \<or> (c, d) \<in> set (zip upperLetters lowerLetters)
            \<or> (d, c) \<in> set (zip upperLetters lowerLetters))"

definition equalIgnoringCase :: "string \<Rightarrow> string \<Rightarrow> bool" where
  "equalIgnoringCase s t = list_all2 sameLetter s t"

text \<open>A byte that starts no UTF-8 sequence: a continuation byte, \<open>0xC0\<close>, \<open>0xC1\<close>, or
  \<open>0xF5\<close> and above.\<close>

definition invalidByte :: "char \<Rightarrow> bool" where
  "invalidByte b =
     ((0x80 \<le> (of_char b :: nat) \<and> (of_char b :: nat) < 0xC2) \<or> 0xF5 \<le> (of_char b :: nat))"

text \<open>The state of \<open>main\<close> with every user renamed.\<close>

definition renamed :: "string \<Rightarrow> world" where
  "renamed n = main_world\<lparr>heap := \<lambda>a. (heap main_world a)\<lparr>Name := n\<rparr>\<rparr>"

text \<open>A lookup to run the model on names outside ASCII. It agrees with
  \<open>unicode.CaseRanges\<close> on the runes the examples look up: \<open>U+00C9\<close> (E with acute) has the
  lower case \<open>U+00E9\<close>, while \<open>U+00E9\<close> and \<open>U+FFFD\<close> are their own.\<close>

definition exampleCaseLower :: "int \<Rightarrow> int" where
  "exampleCaseLower r = (if r = 0xC9 then 0xE9 else r)"

text \<open>A handler a caller can hand to \<open>checkAccess\<close>: the closure
  \<open>func() { u.Locked = true }\<close> over a pointer \<open>u\<close> to the user at address \<open>a\<close>.\<close>

definition lockUser :: "nat \<Rightarrow> 'a world_scheme \<Rightarrow> 'a world_scheme" where
  "lockUser a w = w\<lparr>heap := (heap w)(a := (heap w a)\<lparr>Locked := True\<rparr>)\<rparr>"

section \<open>Properties\<close>

subsection \<open>Evaluation on a user: no failure, no effect\<close>

lemma IsSatisfiedBy_frame:
  "snd (IsSatisfiedBy L s u w) = w"
  "snd (And_range L ss u w) = w"
  "snd (Or_range L ss u w) = w"
  by (induction L s u w and L ss u w and L ss u w
        rule: IsSatisfiedBy_And_range_Or_range.induct)
     (auto split: prod.splits sum.splits)

lemma IsSatisfiedBy_ptr:
  "\<exists>b. IsSatisfiedBy L s (ptr a) w = (Inr b, w)"
  "\<exists>b. And_range L ss (ptr a) w = (Inr b, w)"
  "\<exists>b. Or_range L ss (ptr a) w = (Inr b, w)"
  by (induction L s "ptr a" w and L ss "ptr a" w and L ss "ptr a" w
        rule: IsSatisfiedBy_And_range_Or_range.induct)
     (auto simp: deref_def split: prod.splits sum.splits)

text \<open>The failure branch of the model is live: with a nil pointer a leaf panics.\<close>

lemma Locked_nil_panics:
  "IsSatisfiedBy L Locked_spec nil w = (Inl NilDereference, w)"
  by (simp add: Locked_spec_def deref_def)

lemma And_range_ptr:
  "And_range L ss (ptr a) w =
     (Inr (\<forall>p\<in>set ss. IsSatisfiedBy L p (ptr a) w = (Inr True, w)), w)"
proof (induction ss)
  case Nil
  show ?case by simp
next
  case (Cons s ss)
  obtain b where b: "IsSatisfiedBy L s (ptr a) w = (Inr b, w)"
    using IsSatisfiedBy_ptr(1) by blast
  show ?case using Cons b by (cases b) auto
qed

lemma Or_range_ptr:
  "Or_range L ss (ptr a) w =
     (Inr (\<exists>p\<in>set ss. IsSatisfiedBy L p (ptr a) w = (Inr True, w)), w)"
proof (induction ss)
  case Nil
  show ?case by simp
next
  case (Cons s ss)
  obtain b where b: "IsSatisfiedBy L s (ptr a) w = (Inr b, w)"
    using IsSatisfiedBy_ptr(1) by blast
  show ?case using Cons b by (cases b) auto
qed

lemma IsSatisfiedBy_cases:
  "IsSatisfiedBy L s (ptr a) w = (Inr False, w) \<or> IsSatisfiedBy L s (ptr a) w = (Inr True, w)"
  using IsSatisfiedBy_ptr(1) [of L s a w] by auto

lemma checkAccess_denied:
  assumes "IsSatisfiedBy L spec u w = (Inr False, w)"
  shows "checkAccess L spec name handler u w =
           (Inr (Some (Errorf (name @ '': access denied, user: '' @ fmt_user w u))), w)"
  using assms by (simp add: checkAccess_def)

lemma checkAccess_granted:
  assumes "IsSatisfiedBy L spec u w = (Inr True, w)"
  shows "checkAccess L spec name handler u w =
           (Inr None,
            handler (Print (name @ '': access granted, user: '' @ fmt_user w u @ newline) w))"
  using assms by (simp add: checkAccess_def)

lemma checkAccess_panic:
  assumes "IsSatisfiedBy L spec u w = (Inl e, w)"
  shows "checkAccess L spec name handler u w = (Inl e, w)"
  using assms by (simp add: checkAccess_def)

subsection \<open>Lower case on ASCII strings\<close>

lemma of_char_lowerByte:
  "isUpperByte c \<Longrightarrow> (of_char (lowerByte c) :: nat) = of_char c + 32"
  by (simp add: lowerByte_def isUpperByte_def)

lemma lowerByte_not_upper: "\<not> isUpperByte (lowerByte c)"
  by (auto simp: lowerByte_def isUpperByte_def)

lemma lowerByte_inj:
  assumes c: "isUpperByte c" and d: "isUpperByte d" and e: "lowerByte c = lowerByte d"
  shows "c = d"
proof -
  have "(of_char (lowerByte c) :: nat) = of_char (lowerByte d)"
    by (rule arg_cong [OF e])
  then have "(of_char c :: nat) + 32 = of_char d + 32"
    by (simp only: of_char_lowerByte [OF c] of_char_lowerByte [OF d])
  then have "(of_char c :: nat) = of_char d"
    by (rule add_right_imp_eq)
  then show "c = d"
    by (rule of_char_eqI)
qed

text \<open>The byte arithmetic of the library meets the alphabet: the pairs of a capital and
  its small letter are the pairs of a byte in \<open>A..Z\<close> and that byte moved up by 32. The
  first fact is checked on the 26 pairs, the second on the 256 bytes.\<close>

lemma letters_lowerByte:
  "list_all (\<lambda>(c, d). isUpperByte c \<and> d = lowerByte c) (zip upperLetters lowerLetters)"
  by code_simp

lemma upper_in_letters:
  "\<forall>c. isUpperByte c \<longrightarrow> (c, lowerByte c) \<in> set (zip upperLetters lowerLetters)"
  by code_simp

lemma letter_pair_iff:
  "(c, d) \<in> set (zip upperLetters lowerLetters) \<longleftrightarrow> isUpperByte c \<and> d = lowerByte c"
  using letters_lowerByte upper_in_letters by (auto simp: list_all_iff)

lemma lowerByte_eq_iff: "lowerByte c = lowerByte d \<longleftrightarrow> sameLetter c d"
  unfolding sameLetter_def letter_pair_iff
  using lowerByte_inj [of c d] lowerByte_not_upper [of c] lowerByte_not_upper [of d]
  by (auto simp: lowerByte_def)

lemma map_lowerByte_no_upper: "\<not> hasUpper s \<Longrightarrow> map lowerByte s = s"
  by (induction s) (auto simp: hasUpper_def lowerByte_def)

lemma ToLower_ASCII: "isASCII s \<Longrightarrow> ToLower L s = map lowerByte s"
  by (simp add: ToLower_def map_lowerByte_no_upper)

lemma ToLower_eq_ASCII:
  assumes "isASCII s" and "isASCII t"
  shows "ToLower L s = ToLower L t \<longleftrightarrow> equalIgnoringCase s t"
proof -
  have "ToLower L s = ToLower L t \<longleftrightarrow> list_all2 (=) (map lowerByte s) (map lowerByte t)"
    using assms by (simp add: ToLower_ASCII list_all2_eq)
  also have "\<dots> \<longleftrightarrow> list_all2 (\<lambda>c d. lowerByte c = lowerByte d) s t"
    by (simp add: list_all2_map1 list_all2_map2)
  also have "\<dots> \<longleftrightarrow> equalIgnoringCase s t"
    by (simp add: equalIgnoringCase_def lowerByte_eq_iff)
  finally show ?thesis .
qed

subsection \<open>Lower case outside ASCII\<close>

text \<open>Whatever the table, a name that is one invalid byte becomes the image of
  \<open>RuneError\<close>: the byte itself is lost.\<close>

lemma ToLower_invalidByte:
  assumes "invalidByte b"
  shows "ToLower L [b] = (if 0 \<le> L RuneError then AppendRune (L RuneError) else [])"
proof -
  from assms have n: "\<not> isASCII [b]"
    by (auto simp: invalidByte_def isASCII_def)
  from assms have f: "first (of_char b) = xx"
    by (auto simp: invalidByte_def first_def)
  have d: "DecodeRuneInString [b] = (RuneError, 1)"
    by (simp add: DecodeRuneInString_def byteAt_def f)
  have u: "unicode_ToLower L RuneError = L RuneError"
    by (simp add: unicode_ToLower_def RuneError_def)
  have "Map (unicode_ToLower L) [b] = (if 0 \<le> L RuneError then AppendRune (L RuneError) else [])"
    unfolding Map_def by (subst Map_from.simps) (simp add: d u)
  with n show ?thesis by (simp add: ToLower_def)
qed

subsection \<open>Unfolding the values of \<open>main\<close>\<close>

lemmas example_defs =
  main_world_def user_def supAdmin_def BooFooLocked_def BooFoo_def
  IsPersonal_def IsAdmin_def IsSuperAdmin_def AnyAdmin_def NotAdmin_def NotSuperAdmin_def
  IsNameShort4_def Locked_spec_def NotLocked_def ValidNameNotAdmin_def
  And_def Or_def Not_spec_def NameShort_def deref_def
  Personal_def Admin_def SuperAdmin_def

section \<open>The claims\<close>

text \<open>
  In the statements below the entity is the user \<open>heap w a\<close> that a non-nil pointer
  \<open>ptr a\<close> refers to in a state \<open>w\<close>; every user can be put there. A result \<open>(Inr b, w)\<close>
  says that the call returned the boolean \<open>b\<close> and left the state \<open>w\<close> as it was.
\<close>

text \<open>
  \<^bold>\<open>C1.\<close> For every specification, gate name, handler and entity, the closure returned by
  \<open>checkAccess\<close>, applied to the entity, returns the access-denied error, whose message
  holds the gate name and the string form of the entity, and leaves the state untouched
  (so the handler did not run) when the specification is not satisfied; it returns
  \<open>nil\<close> and leaves the state that one run of the handler makes of the state after the
  ``access granted'' line when the specification is satisfied. One of the two cases
  always applies.
\<close>

theorem checkAccess_decides:
  "(IsSatisfiedBy L spec (ptr a) w = (Inr False, w) \<longrightarrow>
      checkAccess L spec name handler (ptr a) w =
        (Inr (Some (Errorf (name @ '': access denied, user: '' @ User_String (heap w a)))), w))
   \<and> (IsSatisfiedBy L spec (ptr a) w = (Inr True, w) \<longrightarrow>
      checkAccess L spec name handler (ptr a) w =
        (Inr None,
         handler (Print (name @ '': access granted, user: '' @ User_String (heap w a) @ newline) w)))
   \<and> (IsSatisfiedBy L spec (ptr a) w = (Inr False, w)
      \<or> IsSatisfiedBy L spec (ptr a) w = (Inr True, w))"
proof (intro conjI impI)
  assume "IsSatisfiedBy L spec (ptr a) w = (Inr False, w)"
  from checkAccess_denied [OF this]
  show "checkAccess L spec name handler (ptr a) w =
        (Inr (Some (Errorf (name @ '': access denied, user: '' @ User_String (heap w a)))), w)"
    by (simp add: fmt_user_def)
next
  assume "IsSatisfiedBy L spec (ptr a) w = (Inr True, w)"
  from checkAccess_granted [OF this]
  show "checkAccess L spec name handler (ptr a) w =
        (Inr None,
         handler (Print (name @ '': access granted, user: '' @ User_String (heap w a) @ newline) w))"
    by (simp add: fmt_user_def)
next
  show "IsSatisfiedBy L spec (ptr a) w = (Inr False, w)
      \<or> IsSatisfiedBy L spec (ptr a) w = (Inr True, w)"
    by (rule IsSatisfiedBy_cases)
qed

theorem checkAccess_decides_witness:
  "IsSatisfiedBy id IsSuperAdmin (ptr 0) main_world = (Inr False, main_world)
   \<and> checkAccess id IsSuperAdmin ''high level'' (Println ''execute handlerSecret'') (ptr 0) main_world =
       (Inr (Some (Errorf ''high level: access denied, user: Alex (Type:ADMIN Locked:false)'')),
        main_world)
   \<and> IsSatisfiedBy id IsSuperAdmin (ptr 1) main_world = (Inr True, main_world)
   \<and> checkAccess id IsSuperAdmin ''high level'' (Println ''execute handlerSecret'') (ptr 1) main_world =
       (Inr None,
        main_world\<lparr>stdout :=
          ''high level: access granted, user: SuperAlex (Type:SUPER ADMIN Locked:false)'' @ newline
            @ ''execute handlerSecret'' @ newline\<rparr>)"
proof -
  have d: "IsSatisfiedBy id IsSuperAdmin (ptr 0) main_world = (Inr False, main_world)"
    by (simp add: example_defs)
  have g: "IsSatisfiedBy id IsSuperAdmin (ptr 1) main_world = (Inr True, main_world)"
    by (simp add: example_defs)
  have u0: "User_String (heap main_world 0) = ''Alex (Type:ADMIN Locked:false)''"
    by (simp add: User_String_def names_def fmt_bool_def example_defs)
  have u1: "User_String (heap main_world 1) = ''SuperAlex (Type:SUPER ADMIN Locked:false)''"
    by (simp add: User_String_def names_def fmt_bool_def example_defs)
  note t0 = checkAccess_decides [of id IsSuperAdmin 0 main_world "''high level''"
      "Println ''execute handlerSecret''"]
  note t1 = checkAccess_decides [of id IsSuperAdmin 1 main_world "''high level''"
      "Println ''execute handlerSecret''"]
  have p: "Println ''execute handlerSecret''
             (Print (''high level'' @ '': access granted, user: ''
                      @ ''SuperAlex (Type:SUPER ADMIN Locked:false)'' @ newline) main_world)
           = main_world\<lparr>stdout :=
               ''high level: access granted, user: SuperAlex (Type:SUPER ADMIN Locked:false)''
                 @ newline @ ''execute handlerSecret'' @ newline\<rparr>"
    by (simp add: Println_def Print_def main_world_def)
  from t0 d have r0: "checkAccess id IsSuperAdmin ''high level'' (Println ''execute handlerSecret'')
        (ptr 0) main_world =
      (Inr (Some (Errorf (''high level'' @ '': access denied, user: ''
                            @ User_String (heap main_world 0)))), main_world)"
    by blast
  from t1 g have r1: "checkAccess id IsSuperAdmin ''high level'' (Println ''execute handlerSecret'')
        (ptr 1) main_world =
      (Inr None, Println ''execute handlerSecret''
         (Print (''high level'' @ '': access granted, user: ''
                   @ User_String (heap main_world 1) @ newline) main_world))"
    by blast
  show ?thesis
    using d g r0 r1 unfolding u0 u1 p by simp
qed

text \<open>
  \<^bold>\<open>C2.\<close> For every list of child specifications and every entity, the \<open>And\<close> of the
  children returns \<open>true\<close> if and only if every child returns \<open>true\<close>; it returns \<open>false\<close>
  otherwise, and \<open>true\<close> for the empty list.
\<close>

theorem And_iff_all_children:
  "(IsSatisfiedBy L (And ps) (ptr a) w = (Inr True, w)
      \<longleftrightarrow> (\<forall>p\<in>set ps. IsSatisfiedBy L p (ptr a) w = (Inr True, w)))
   \<and> (IsSatisfiedBy L (And ps) (ptr a) w = (Inr True, w)
      \<or> IsSatisfiedBy L (And ps) (ptr a) w = (Inr False, w))
   \<and> IsSatisfiedBy L (And []) (ptr a) w = (Inr True, w)"
proof -
  have loop: "IsSatisfiedBy L (And ps) (ptr a) w =
      (Inr (\<forall>p\<in>set ps. IsSatisfiedBy L p (ptr a) w = (Inr True, w)), w)"
    unfolding And_def by (simp only: IsSatisfiedBy.simps And_range_ptr)
  have empty: "IsSatisfiedBy L (And []) (ptr a) w = (Inr True, w)"
    by (simp add: And_def)
  from loop empty show ?thesis by auto
qed

theorem And_iff_all_children_witness:
  "IsSatisfiedBy id IsAdmin (ptr 0) main_world = (Inr True, main_world)
   \<and> IsSatisfiedBy id NotLocked (ptr 0) main_world = (Inr True, main_world)
   \<and> IsSatisfiedBy id (And [IsAdmin, NotLocked]) (ptr 0) main_world = (Inr True, main_world)
   \<and> IsSatisfiedBy id Locked_spec (ptr 0) main_world = (Inr False, main_world)
   \<and> IsSatisfiedBy id (And [IsAdmin, Locked_spec]) (ptr 0) main_world = (Inr False, main_world)"
proof -
  have c: "IsSatisfiedBy id IsAdmin (ptr 0) main_world = (Inr True, main_world)"
    "IsSatisfiedBy id NotLocked (ptr 0) main_world = (Inr True, main_world)"
    "IsSatisfiedBy id Locked_spec (ptr 0) main_world = (Inr False, main_world)"
    by (simp_all add: example_defs)
  show ?thesis
    using And_iff_all_children [of id "[IsAdmin, NotLocked]" 0 main_world]
      And_iff_all_children [of id "[IsAdmin, Locked_spec]" 0 main_world]
    by (auto simp: c)
qed

text \<open>
  \<^bold>\<open>C3.\<close> For every list of child specifications and every entity, the \<open>Or\<close> of the
  children returns \<open>true\<close> if and only if at least one child returns \<open>true\<close>; it returns
  \<open>false\<close> otherwise, and \<open>false\<close> for the empty list.
\<close>

theorem Or_iff_some_child:
  "(IsSatisfiedBy L (Or ps) (ptr a) w = (Inr True, w)
      \<longleftrightarrow> (\<exists>p\<in>set ps. IsSatisfiedBy L p (ptr a) w = (Inr True, w)))
   \<and> (IsSatisfiedBy L (Or ps) (ptr a) w = (Inr True, w)
      \<or> IsSatisfiedBy L (Or ps) (ptr a) w = (Inr False, w))
   \<and> IsSatisfiedBy L (Or []) (ptr a) w = (Inr False, w)"
proof -
  have loop: "IsSatisfiedBy L (Or ps) (ptr a) w =
      (Inr (\<exists>p\<in>set ps. IsSatisfiedBy L p (ptr a) w = (Inr True, w)), w)"
    unfolding Or_def by (simp only: IsSatisfiedBy.simps Or_range_ptr)
  have empty: "IsSatisfiedBy L (Or []) (ptr a) w = (Inr False, w)"
    by (simp add: Or_def)
  from loop empty show ?thesis by auto
qed

theorem Or_iff_some_child_witness:
  "IsSatisfiedBy id IsSuperAdmin (ptr 0) main_world = (Inr False, main_world)
   \<and> IsSatisfiedBy id IsAdmin (ptr 0) main_world = (Inr True, main_world)
   \<and> IsSatisfiedBy id (Or [IsSuperAdmin, IsAdmin]) (ptr 0) main_world = (Inr True, main_world)
   \<and> IsSatisfiedBy id Locked_spec (ptr 0) main_world = (Inr False, main_world)
   \<and> IsSatisfiedBy id (Or [IsSuperAdmin, Locked_spec]) (ptr 0) main_world = (Inr False, main_world)"
proof -
  have c: "IsSatisfiedBy id IsAdmin (ptr 0) main_world = (Inr True, main_world)"
    "IsSatisfiedBy id IsSuperAdmin (ptr 0) main_world = (Inr False, main_world)"
    "IsSatisfiedBy id Locked_spec (ptr 0) main_world = (Inr False, main_world)"
    by (simp_all add: example_defs)
  show ?thesis
    using Or_iff_some_child [of id "[IsSuperAdmin, IsAdmin]" 0 main_world]
      Or_iff_some_child [of id "[IsSuperAdmin, Locked_spec]" 0 main_world]
    by (auto simp: c)
qed

text \<open>
  \<^bold>\<open>C4.\<close> For every specification \<open>P\<close>, \<open>Not(Not(P))\<close> gives on every argument what \<open>P\<close>
  gives (also on the nil pointer, where both panic or neither does), and on every entity
  \<open>Not(P)\<close> returns the negation of the boolean \<open>P\<close> returns.
\<close>

theorem Not_Not:
  "IsSatisfiedBy L (Not_spec (Not_spec P)) u w = IsSatisfiedBy L P u w
   \<and> (\<exists>b. IsSatisfiedBy L P (ptr a) w = (Inr b, w)
          \<and> IsSatisfiedBy L (Not_spec P) (ptr a) w = (Inr (\<not> b), w))"
proof
  show "IsSatisfiedBy L (Not_spec (Not_spec P)) u w = IsSatisfiedBy L P u w"
    by (cases "IsSatisfiedBy L P u w") (simp add: Not_spec_def split: sum.splits)
next
  obtain b where "IsSatisfiedBy L P (ptr a) w = (Inr b, w)"
    using IsSatisfiedBy_ptr(1) by blast
  then show "\<exists>b. IsSatisfiedBy L P (ptr a) w = (Inr b, w)
          \<and> IsSatisfiedBy L (Not_spec P) (ptr a) w = (Inr (\<not> b), w)"
    by (simp add: Not_spec_def)
qed

theorem Not_Not_witness:
  "IsSatisfiedBy id (Not_spec (Not_spec IsAdmin)) (ptr 0) main_world = (Inr True, main_world)
   \<and> IsSatisfiedBy id (Not_spec IsAdmin) (ptr 0) main_world = (Inr False, main_world)
   \<and> IsSatisfiedBy id (Not_spec (Not_spec IsAdmin)) (ptr 1) main_world = (Inr False, main_world)
   \<and> IsSatisfiedBy id (Not_spec (Not_spec IsAdmin)) nil main_world = (Inl NilDereference, main_world)"
proof -
  have c: "IsSatisfiedBy id IsAdmin (ptr 0) main_world = (Inr True, main_world)"
    "IsSatisfiedBy id IsAdmin (ptr 1) main_world = (Inr False, main_world)"
    "IsSatisfiedBy id IsAdmin nil main_world = (Inl NilDereference, main_world)"
    by (simp_all add: example_defs)
  have "\<exists>b. (Inr True :: panic + bool, main_world) = (Inr b, main_world)
          \<and> IsSatisfiedBy id (Not_spec IsAdmin) (ptr 0) main_world = (Inr (\<not> b), main_world)"
    using Not_Not [of id IsAdmin "ptr 0" main_world 0] by (simp only: c)
  then have n: "IsSatisfiedBy id (Not_spec IsAdmin) (ptr 0) main_world = (Inr False, main_world)"
    by auto
  show ?thesis
    using Not_Not [of id IsAdmin "ptr 0" main_world 0] Not_Not [of id IsAdmin "ptr 1" main_world 0]
      Not_Not [of id IsAdmin nil main_world 0] n c
    by metis
qed

text \<open>
  \<^bold>\<open>C5.\<close> As stated, for every configured name and every entity, the claim fails outside
  ASCII: \<open>Name\<close> compares the lower-cased strings, and \<open>strings.ToLower\<close> replaces every
  invalid UTF-8 byte by \<open>U+FFFD\<close>. \<open>Name\<close> of the one-byte name \<open>0xFF\<close> accepts an entity whose
  name is the byte \<open>0xFE\<close>, although the two names differ by more than the case of a letter.
\<close>

theorem Name_accepts_another_invalid_byte:
  "Name (heap (renamed [CHR 0xFE]) 0) = [CHR 0xFE]
   \<and> IsSatisfiedBy exampleCaseLower (Name_spec exampleCaseLower [CHR 0xFF]) (ptr 0)
         (renamed [CHR 0xFE])
       = (Inr True, renamed [CHR 0xFE])
   \<and> \<not> equalIgnoringCase [CHR 0xFE] [CHR 0xFF]"
proof -
  have n: "Name (heap (renamed [CHR 0xFE]) 0) = [CHR 0xFE]"
    by (simp add: renamed_def)
  have i: "invalidByte (CHR 0xFE)" "invalidByte (CHR 0xFF)"
    by (simp_all add: invalidByte_def)
  have "ToLower exampleCaseLower [CHR 0xFE] = ToLower exampleCaseLower [CHR 0xFF]"
    by (simp only: ToLower_invalidByte [OF i(1)] ToLower_invalidByte [OF i(2)])
  then have e: "IsSatisfiedBy exampleCaseLower (Name_spec exampleCaseLower [CHR 0xFF]) (ptr 0)
         (renamed [CHR 0xFE]) = (Inr True, renamed [CHR 0xFE])"
    by (simp add: Name_spec_def deref_def n)
  have d: "\<not> equalIgnoringCase [CHR 0xFE] [CHR 0xFF]"
    by code_simp
  from n e d show ?thesis by simp
qed

text \<open>
  \<^bold>\<open>C5, amended.\<close> For every configured name \<open>s\<close> and every entity, \<open>Name(s)\<close> returns whether
  \<open>strings.ToLower\<close> of the entity's name equals \<open>strings.ToLower\<close> of \<open>s\<close>. When both
  names are ASCII, this is the case if and only if the names are equal up to the case
  of letters; in particular \<open>Name("Alex")\<close> accepts an entity named \<open>alex\<close> and
  \<open>Name("alex")\<close> one named \<open>Alex\<close>. Outside ASCII the comparison is not one that ignores
  case only: any two names made of one invalid byte each are accepted for each other.
\<close>

theorem Name_ignores_case:
  "IsSatisfiedBy L (Name_spec L s) (ptr a) w =
     (Inr (ToLower L (Name (heap w a)) = ToLower L s), w)
   \<and> (isASCII s \<and> isASCII (Name (heap w a)) \<longrightarrow>
        IsSatisfiedBy L (Name_spec L s) (ptr a) w =
          (Inr (equalIgnoringCase (Name (heap w a)) s), w))
   \<and> (Name (heap w a) = ''alex'' \<longrightarrow>
        IsSatisfiedBy L (Name_spec L ''Alex'') (ptr a) w = (Inr True, w))
   \<and> (Name (heap w a) = ''Alex'' \<longrightarrow>
        IsSatisfiedBy L (Name_spec L ''alex'') (ptr a) w = (Inr True, w))
   \<and> (invalidByte b \<and> invalidByte b' \<and> Name (heap w a) = [b'] \<longrightarrow>
        IsSatisfiedBy L (Name_spec L [b]) (ptr a) w = (Inr True, w))"
proof -
  have eval: "IsSatisfiedBy L (Name_spec L t) (ptr a) w =
      (Inr (ToLower L (Name (heap w a)) = ToLower L t), w)" for t
    by (simp add: Name_spec_def deref_def)
  have ascii: "isASCII ''Alex''" "isASCII ''alex''"
    by (simp_all add: isASCII_def)
  have "map lowerByte ''Alex'' = ''alex''" "map lowerByte ''alex'' = ''alex''"
    by code_simp+
  with ascii have lower: "ToLower L ''Alex'' = ''alex''" "ToLower L ''alex'' = ''alex''"
    by (simp_all only: ToLower_ASCII)
  have invalid: "ToLower L [b'] = ToLower L [b]" if "invalidByte b" "invalidByte b'"
    using that by (simp only: ToLower_invalidByte)
  show ?thesis
    using eval ToLower_eq_ASCII [of "Name (heap w a)" s L] lower invalid by simp
qed

theorem Name_ignores_case_witness:
  "isASCII ''ALEX'' \<and> isASCII (Name (heap main_world 0))
   \<and> equalIgnoringCase (Name (heap main_world 0)) ''ALEX''
   \<and> IsSatisfiedBy id (Name_spec id ''ALEX'') (ptr 0) main_world = (Inr True, main_world)
   \<and> Name (heap main_world 0) = ''Alex''
   \<and> IsSatisfiedBy id (Name_spec id ''alex'') (ptr 0) main_world = (Inr True, main_world)
   \<and> Name (heap (renamed ''alex'') 0) = ''alex''
   \<and> IsSatisfiedBy id (Name_spec id ''Alex'') (ptr 0) (renamed ''alex'')
       = (Inr True, renamed ''alex'')
   \<and> \<not> equalIgnoringCase (Name (heap main_world 0)) ''Alexa''
   \<and> IsSatisfiedBy id (Name_spec id ''Alexa'') (ptr 0) main_world = (Inr False, main_world)
   \<and> isASCII ''Bob'' \<and> isASCII (Name (heap (renamed ''bob'') 0))
   \<and> IsSatisfiedBy id (Name_spec id ''Bob'') (ptr 0) (renamed ''bob'')
       = (Inr True, renamed ''bob'')
   \<and> IsSatisfiedBy exampleCaseLower (Name_spec exampleCaseLower [CHR 0xC3, CHR 0x89]) (ptr 0)
         (renamed [CHR 0xC3, CHR 0xA9])
       = (Inr True, renamed [CHR 0xC3, CHR 0xA9])
   \<and> invalidByte (CHR 0xFF) \<and> invalidByte (CHR 0x80)
   \<and> Name (heap (renamed [CHR 0x80]) 0) = [CHR 0x80]
   \<and> IsSatisfiedBy id (Name_spec id [CHR 0xFF]) (ptr 0) (renamed [CHR 0x80])
       = (Inr True, renamed [CHR 0x80])"
proof -
  have n: "Name (heap main_world 0) = ''Alex''"
    by (simp add: main_world_def user_def)
  have n': "Name (heap (renamed t) 0) = t" for t
    by (simp add: renamed_def)
  have a: "isASCII ''ALEX''" "isASCII ''Alex''" "isASCII ''Alexa''" "isASCII ''Bob''"
    "isASCII ''bob''"
    by (simp_all add: isASCII_def)
  have e: "equalIgnoringCase ''Alex'' ''ALEX''" "\<not> equalIgnoringCase ''Alex'' ''Alexa''"
    "equalIgnoringCase ''bob'' ''Bob''"
    by code_simp+
  have i: "invalidByte (CHR 0xFF)" "invalidByte (CHR 0x80)"
    by (simp_all add: invalidByte_def)
  have l: "ToLower exampleCaseLower [CHR 0xC3, CHR 0xA9]
             = ToLower exampleCaseLower [CHR 0xC3, CHR 0x89]"
    by code_simp
  note t1 = Name_ignores_case [of id "''ALEX''" 0 main_world, unfolded n]
  note t2 = Name_ignores_case [of id "''Alexa''" 0 main_world, unfolded n]
  note t3 = Name_ignores_case [of id "''alex''" 0 main_world, unfolded n]
  note t4 = Name_ignores_case [of id "''alex''" 0 "renamed ''alex''", unfolded n']
  note t5 = Name_ignores_case [of id "''Bob''" 0 "renamed ''bob''", unfolded n']
  note t6 = Name_ignores_case [of exampleCaseLower "[CHR 0xC3, CHR 0x89]" 0
      "renamed [CHR 0xC3, CHR 0xA9]", unfolded n']
  note t7 = Name_ignores_case [of id "''x''" 0 "renamed [CHR 0x80]" "CHR 0xFF" "CHR 0x80",
      unfolded n']
  from t1 a e have r1:
    "IsSatisfiedBy id (Name_spec id ''ALEX'') (ptr 0) main_world = (Inr True, main_world)"
    by auto
  from t2 a e have r2:
    "IsSatisfiedBy id (Name_spec id ''Alexa'') (ptr 0) main_world = (Inr False, main_world)"
    by auto
  from t3 have r3:
    "IsSatisfiedBy id (Name_spec id ''alex'') (ptr 0) main_world = (Inr True, main_world)"
    by auto
  from t4 have r4:
    "IsSatisfiedBy id (Name_spec id ''Alex'') (ptr 0) (renamed ''alex'')
       = (Inr True, renamed ''alex'')"
    by auto
  from t5 a e have r5:
    "IsSatisfiedBy id (Name_spec id ''Bob'') (ptr 0) (renamed ''bob'')
       = (Inr True, renamed ''bob'')"
    by auto
  from t6 l have r6:
    "IsSatisfiedBy exampleCaseLower (Name_spec exampleCaseLower [CHR 0xC3, CHR 0x89]) (ptr 0)
         (renamed [CHR 0xC3, CHR 0xA9])
       = (Inr True, renamed [CHR 0xC3, CHR 0xA9])"
    by auto
  from t7 i have r7:
    "IsSatisfiedBy id (Name_spec id [CHR 0xFF]) (ptr 0) (renamed [CHR 0x80])
       = (Inr True, renamed [CHR 0x80])"
    by auto
  show ?thesis
    unfolding n n' using a e i r1 r2 r3 r4 r5 r6 r7 by simp
qed

text \<open>
  \<^bold>\<open>C6.\<close> For the entity of \<open>main\<close> with type \<open>Admin\<close>, name \<open>Alex\<close> and \<open>Locked\<close> false,
  \<open>Or(IsAdmin, IsSuperAdmin)\<close> (the rule \<open>AnyAdmin\<close>) returns \<open>true\<close> and \<open>IsSuperAdmin\<close>
  returns \<open>false\<close>; a gate built by \<open>checkAccess\<close> on \<open>IsSuperAdmin\<close> returns the
  access-denied error for that entity, and for an entity of type \<open>SuperAdmin\<close> it
  returns \<open>nil\<close> after running the handler.
\<close>

theorem main_example:
  assumes "heap w a = user" and "Type (heap w b) = SuperAdmin"
  shows "UserIsSatisfiedBy L (ptr a) (Or [IsAdmin, IsSuperAdmin]) w = (Inr True, w)
   \<and> UserIsSatisfiedBy L (ptr a) AnyAdmin w = (Inr True, w)
   \<and> UserIsSatisfiedBy L (ptr a) IsSuperAdmin w = (Inr False, w)
   \<and> checkAccess L IsSuperAdmin name handler (ptr a) w =
       (Inr (Some (Errorf (name @ '': access denied, user: Alex (Type:ADMIN Locked:false)''))), w)
   \<and> checkAccess L IsSuperAdmin name handler (ptr b) w =
       (Inr None,
        handler (Print (name @ '': access granted, user: '' @ User_String (heap w b) @ newline) w))"
proof -
  have admin: "IsSatisfiedBy L IsAdmin (ptr a) w = (Inr True, w)"
    using assms(1) by (simp add: IsAdmin_def deref_def user_def)
  have super_a: "IsSatisfiedBy L IsSuperAdmin (ptr a) w = (Inr False, w)"
    using assms(1) by (simp add: IsSuperAdmin_def deref_def user_def Admin_def SuperAdmin_def)
  have super_b: "IsSatisfiedBy L IsSuperAdmin (ptr b) w = (Inr True, w)"
    using assms(2) by (simp add: IsSuperAdmin_def deref_def)
  have any: "IsSatisfiedBy L (Or [IsAdmin, IsSuperAdmin]) (ptr a) w = (Inr True, w)"
    by (simp add: Or_def admin)
  have str: "User_String (heap w a) = ''Alex (Type:ADMIN Locked:false)''"
    using assms(1) by (simp add: User_String_def user_def names_def fmt_bool_def
        Personal_def Admin_def SuperAdmin_def)
  have denied: "checkAccess L IsSuperAdmin name handler (ptr a) w =
       (Inr (Some (Errorf (name @ '': access denied, user: Alex (Type:ADMIN Locked:false)''))), w)"
    using checkAccess_denied [OF super_a] by (simp add: fmt_user_def str)
  have granted: "checkAccess L IsSuperAdmin name handler (ptr b) w =
       (Inr None,
        handler (Print (name @ '': access granted, user: '' @ User_String (heap w b) @ newline) w))"
    using checkAccess_granted [OF super_b] by (simp add: fmt_user_def)
  show ?thesis
    using any super_a denied granted by (simp add: UserIsSatisfiedBy_def AnyAdmin_def)
qed

theorem main_example_witness:
  "heap main_world 0 = user \<and> Type (heap main_world 1) = SuperAdmin
   \<and> UserIsSatisfiedBy id (ptr 0) AnyAdmin main_world = (Inr True, main_world)
   \<and> UserIsSatisfiedBy id (ptr 0) IsSuperAdmin main_world = (Inr False, main_world)
   \<and> handlerSecret id (ptr 0) main_world =
       (Inr (Some (Errorf ''high level: access denied, user: Alex (Type:ADMIN Locked:false)'')),
        main_world)
   \<and> handlerSecret id (ptr 1) main_world =
       (Inr None,
        main_world\<lparr>stdout :=
          ''high level: access granted, user: SuperAlex (Type:SUPER ADMIN Locked:false)'' @ newline
            @ ''execute handlerSecret'' @ newline\<rparr>)"
proof -
  have h: "heap main_world 0 = user" "Type (heap main_world 1) = SuperAdmin"
    by (simp_all add: main_world_def supAdmin_def)
  have u1: "User_String (heap main_world 1) = ''SuperAlex (Type:SUPER ADMIN Locked:false)''"
    by (simp add: User_String_def names_def fmt_bool_def main_world_def supAdmin_def
        Personal_def Admin_def SuperAdmin_def)
  have p: "Println ''execute handlerSecret''
             (Print (''high level'' @ '': access granted, user: ''
                      @ ''SuperAlex (Type:SUPER ADMIN Locked:false)'' @ newline) main_world)
           = main_world\<lparr>stdout :=
               ''high level: access granted, user: SuperAlex (Type:SUPER ADMIN Locked:false)''
                 @ newline @ ''execute handlerSecret'' @ newline\<rparr>"
    by (simp add: Println_def Print_def main_world_def)
  note t = main_example [OF h, of id "''high level''" "Println ''execute handlerSecret''"]
  show ?thesis
    using t h unfolding handlerSecret_def u1 p by simp
qed

text \<open>
  \<^bold>\<open>C7.\<close> For every threshold \<open>l\<close> and every entity, \<open>NameShort(l)\<close> returns whether the
  length of the entity's name, counted in bytes, is at most \<open>l\<close>.
\<close>

theorem NameShort_iff:
  "IsSatisfiedBy L (NameShort l) (ptr a) w = (Inr (int (length (Name (heap w a))) \<le> l), w)"
  by (simp add: NameShort_def deref_def)

theorem NameShort_iff_witness:
  "IsSatisfiedBy id (NameShort 4) (ptr 0) main_world = (Inr True, main_world)
   \<and> IsSatisfiedBy id (NameShort 3) (ptr 0) main_world = (Inr False, main_world)
   \<and> IsSatisfiedBy id (NameShort (- 1)) (ptr 0) main_world = (Inr False, main_world)
   \<and> IsSatisfiedBy id IsNameShort4 (ptr 2) main_world = (Inr False, main_world)"
proof -
  have n: "length (Name (heap main_world 0)) = 4" "length (Name (heap main_world 2)) = 12"
    by (simp_all add: main_world_def user_def BooFooLocked_def)
  show ?thesis
    unfolding IsNameShort4_def
    using NameShort_iff [of id 4 0 main_world] NameShort_iff [of id 3 0 main_world]
      NameShort_iff [of id "- 1" 0 main_world] NameShort_iff [of id 4 2 main_world]
    by (simp add: n)
qed

text \<open>
  \<^bold>\<open>C8.\<close> \<open>IsSatisfiedBy\<close> is defined by recursion with a proved termination, so every
  call returns. For every specification built from the leaves and the combinators and
  for every entity the call returns a boolean: it does not panic (as it can on a nil
  pointer, see \<open>Locked_nil_panics\<close>), and it leaves the state as it was. The recursion
  descends along the tree: every child of an \<open>And\<close> or an \<open>Or\<close>, and the argument of a
  \<open>Not\<close>, is smaller than the combinator that holds it.
\<close>

theorem IsSatisfiedBy_total:
  "(\<exists>b. IsSatisfiedBy L spec (ptr a) w = (Inr b, w))
   \<and> (\<forall>c\<in>set specs. size c < size (And specs) \<and> size c < size (Or specs))
   \<and> size spec < size (Not_spec spec)"
proof (intro conjI ballI)
  show "\<exists>b. IsSatisfiedBy L spec (ptr a) w = (Inr b, w)"
    by (rule IsSatisfiedBy_ptr(1))
next
  fix c assume "c \<in> set specs"
  then have "size c \<le> size_list size specs"
    by (rule size_list_estimation') simp
  then show "size c < size (And specs)" and "size c < size (Or specs)"
    by (simp_all add: And_def Or_def)
next
  show "size spec < size (Not_spec spec)"
    by (simp add: Not_spec_def)
qed

theorem IsSatisfiedBy_total_witness:
  "(\<exists>b. IsSatisfiedBy id ValidNameNotAdmin (ptr 3) main_world = (Inr b, main_world))
   \<and> size IsAdmin < size (And [IsAdmin, NotLocked])
   \<and> size NotLocked < size (Or [IsAdmin, NotLocked])
   \<and> size AnyAdmin < size (Not_spec AnyAdmin)"
  using IsSatisfiedBy_total [of id ValidNameNotAdmin 3 main_world "[IsAdmin, NotLocked]"]
    IsSatisfiedBy_total [of id AnyAdmin 3 main_world "[]"]
  by simp

text \<open>
  \<^bold>\<open>C9.\<close> As stated, for every gate, the claim fails: the handler is any \<open>func()\<close> of the
  caller, it runs when access is granted, and a closure over the user's pointer can
  write the user. The gate on \<open>IsSuperAdmin\<close> with the handler \<open>lockUser\<close> returns \<open>nil\<close>
  on the super admin of \<open>main\<close> and leaves that user locked.
\<close>

theorem gate_handler_locks_entity:
  "fst (checkAccess id IsSuperAdmin ''high level'' (lockUser 1) (ptr 1) main_world) = Inr None
   \<and> \<not> Locked (heap main_world 1)
   \<and> Locked (heap (snd (checkAccess id IsSuperAdmin ''high level'' (lockUser 1) (ptr 1) main_world)) 1)"
  by (simp add: checkAccess_def lockUser_def Print_def example_defs)

text \<open>
  \<^bold>\<open>C9, amended.\<close> For every specification and every argument, evaluating
  \<open>IsSatisfiedBy\<close> leaves the whole state, and so every field of every entity,
  unchanged. Applying a gate built by \<open>checkAccess\<close> leaves the whole state unchanged
  when access is denied; whatever the outcome, it leaves an entity unchanged whenever
  the handler does not write that entity.
\<close>

theorem gate_frame:
  "snd (IsSatisfiedBy L spec u w) = w
   \<and> (IsSatisfiedBy L spec (ptr a) w = (Inr False, w) \<longrightarrow>
        snd (checkAccess L spec name handler (ptr a) w) = w)
   \<and> ((\<forall>w'. heap (handler w') a' = heap w' a') \<longrightarrow>
        heap (snd (checkAccess L spec name handler u w)) a' = heap w a')"
proof (intro conjI impI)
  show "snd (IsSatisfiedBy L spec u w) = w"
    by (rule IsSatisfiedBy_frame(1))
next
  assume "IsSatisfiedBy L spec (ptr a) w = (Inr False, w)"
  then show "snd (checkAccess L spec name handler (ptr a) w) = w"
    by (simp add: checkAccess_denied)
next
  assume handler: "\<forall>w'. heap (handler w') a' = heap w' a'"
  obtain r where r: "IsSatisfiedBy L spec u w = (r, w)"
    using IsSatisfiedBy_frame(1) [of L spec u w] by (cases "IsSatisfiedBy L spec u w") simp
  show "heap (snd (checkAccess L spec name handler u w)) a' = heap w a'"
  proof (cases r)
    case (Inl e)
    with r show ?thesis by (simp add: checkAccess_panic)
  next
    case (Inr b)
    show ?thesis
    proof (cases b)
      case True
      with r Inr have "IsSatisfiedBy L spec u w = (Inr True, w)" by simp
      from checkAccess_granted [OF this] handler show ?thesis
        by (simp add: Print_def)
    next
      case False
      with r Inr have "IsSatisfiedBy L spec u w = (Inr False, w)" by simp
      from checkAccess_denied [OF this] show ?thesis by simp
    qed
  qed
qed

theorem gate_frame_witness:
  "IsSatisfiedBy id IsSuperAdmin (ptr 0) main_world = (Inr False, main_world)
   \<and> snd (handlerSecret id (ptr 0) main_world) = main_world
   \<and> (\<forall>w'::world. heap (Println ''execute handlerSecret'' w') 1 = heap w' 1)
   \<and> heap (snd (handlerSecret id (ptr 1) main_world)) 1 = heap main_world 1
   \<and> snd (IsSatisfiedBy id ValidNameNotAdmin (ptr 1) main_world) = main_world"
proof -
  have d: "IsSatisfiedBy id IsSuperAdmin (ptr 0) main_world = (Inr False, main_world)"
    by (simp add: example_defs)
  have h: "\<forall>w'::world. heap (Println ''execute handlerSecret'' w') 1 = heap w' 1"
    by (simp add: Println_def Print_def)
  note t0 = gate_frame [of id IsSuperAdmin "ptr 0" main_world 0 "''high level''"
      "Println ''execute handlerSecret''" 1]
  note t1 = gate_frame [of id IsSuperAdmin "ptr 1" main_world 0 "''high level''"
      "Println ''execute handlerSecret''" 1]
  note t2 = gate_frame [of id ValidNameNotAdmin "ptr 1" main_world 0 "''high level''"
      "Println ''execute handlerSecret''" 1]
  from t0 d have r0: "snd (handlerSecret id (ptr 0) main_world) = main_world"
    unfolding handlerSecret_def by blast
  from t1 h have r1: "heap (snd (handlerSecret id (ptr 1) main_world)) 1 = heap main_world 1"
    unfolding handlerSecret_def by blast
  from t2 have r2: "snd (IsSatisfiedBy id ValidNameNotAdmin (ptr 1) main_world) = main_world"
    by blast
  from d r0 h r1 r2 show ?thesis by blast
qed

text \<open>
  \<^bold>\<open>C10.\<close> For every entity, \<open>ValidNameNotAdmin\<close> returns \<open>true\<close> if and only if the type is
  neither \<open>Admin\<close> nor \<open>SuperAdmin\<close> (any other value of the type, not only \<open>Personal\<close>),
  the entity is not locked, and its name is longer than 4 bytes.
\<close>

theorem ValidNameNotAdmin_iff:
  "IsSatisfiedBy L ValidNameNotAdmin (ptr a) w =
     (Inr (Type (heap w a) \<noteq> Admin \<and> Type (heap w a) \<noteq> SuperAdmin
           \<and> \<not> Locked (heap w a) \<and> 4 < length (Name (heap w a))), w)"
  by (auto simp: ValidNameNotAdmin_def And_def Not_spec_def AnyAdmin_def Or_def IsAdmin_def
      IsSuperAdmin_def NotLocked_def Locked_spec_def IsNameShort4_def NameShort_def deref_def)

theorem ValidNameNotAdmin_iff_witness:
  "IsSatisfiedBy id ValidNameNotAdmin (ptr 0) main_world = (Inr False, main_world)
   \<and> IsSatisfiedBy id ValidNameNotAdmin (ptr 2) main_world = (Inr False, main_world)
   \<and> IsSatisfiedBy id ValidNameNotAdmin (ptr 3) main_world = (Inr True, main_world)
   \<and> IsSatisfiedBy id ValidNameNotAdmin (ptr 0)
        (main_world\<lparr>heap := \<lambda>_. \<lparr>Type = 7, Name = ''Guest'', Locked = False\<rparr>\<rparr>)
       = (Inr True, main_world\<lparr>heap := \<lambda>_. \<lparr>Type = 7, Name = ''Guest'', Locked = False\<rparr>\<rparr>)"
  using ValidNameNotAdmin_iff [of id 0 main_world] ValidNameNotAdmin_iff [of id 2 main_world]
    ValidNameNotAdmin_iff [of id 3 main_world]
    ValidNameNotAdmin_iff [of id 0 "main_world\<lparr>heap := \<lambda>_. \<lparr>Type = 7, Name = ''Guest'', Locked = False\<rparr>\<rparr>"]
  by (simp add: main_world_def user_def BooFoo_def BooFooLocked_def Personal_def Admin_def SuperAdmin_def)

end
